theory Spec2Isabelle
  imports Complex_Main "HOL-Library.Sublist" "HOL-Library.Multiset"
begin

section \<open>Relevance-ranked product search (\<open>ProductModel.search\<close>)\<close>

text \<open>
  The function under study is \<open>ProductModel.search\<close> of \<open>src/models/product.model.ts\<close>.
  It issues one \<open>SELECT\<close> on the \<open>products\<close> table: a \<open>WHERE\<close> clause made of an
  optional active filter and four match strategies joined by \<open>OR\<close>, and an
  \<open>ORDER BY ... DESC\<close> on a relevance score. The query is translated clause by clause.
  Numbers computed by the store are taken as the real numbers they denote, and the
  arithmetic of the score is exact. The statement names no key beyond the score, so a call
  is described by the results it may end with.
\<close>

subsection \<open>Data model\<close>

text \<open>
  The columns of \<open>Product\<close> that the query reads, and the identifier. The remaining
  columns of the interface (slug, price, images, ...) are not read by \<open>search\<close>.
  A nullable column is an \<open>option\<close>.
\<close>

record product =
  id :: string
  name :: string
  description :: "string option"
  shortDescription :: "string option"
  isActive :: bool

text \<open>
  The errors of the store. \<open>StoreUnavailable\<close> is the error of a query that cannot reach
  the store, with the driver's message: the pool of \<open>src/db/index.ts\<close> either answers
  or rejects. \<open>InvalidByteSequence\<close> is the error of a reachable store for a statement
  whose text parameter holds a NUL byte, which the store accepts neither in a parameter
  nor in a stored text; every other JavaScript string reaches the store as valid text.
\<close>

datatype store_error = StoreUnavailable string | InvalidByteSequence

text \<open>
  A store is reachable and holds the rows of the table, or it is not reachable and the
  driver reports why.
\<close>

datatype db = Connected "product list" | Unreachable string

definition nul :: char where
  "nul = CHR 0x00"

text \<open>
  What the store answers to the statement of \<open>search\<close>, whose text parameters are the
  query and the pattern built from it: the error, or the rows of the table that the
  clauses of the statement then work on.
\<close>

fun select_from_products :: "db \<Rightarrow> string \<Rightarrow> store_error + product list" where
  "select_from_products (Unreachable msg) query = Inl (StoreUnavailable msg)"
| "select_from_products (Connected rows) query =
     (if nul \<in> set query then Inl InvalidByteSequence else Inr rows)"

subsection \<open>SQL operators evaluated on strings: \<open>COALESCE\<close>, \<open>LOWER\<close>, \<open>LIKE\<close>\<close>

fun coalesce :: "string option \<Rightarrow> string \<Rightarrow> string" where
  "coalesce None d = d"
| "coalesce (Some s) d = s"

text \<open>\<open>LOWER\<close> on the ASCII letters; every other byte is kept.\<close>

definition lower_char :: "char \<Rightarrow> char" where
  "lower_char c =
     (case map_of (zip ''ABCDEFGHIJKLMNOPQRSTUVWXYZ'' ''abcdefghijklmnopqrstuvwxyz'') c of
        None \<Rightarrow> c
      | Some l \<Rightarrow> l)"

definition lower :: "string \<Rightarrow> string" where
  "lower s = map lower_char s"

definition backslash :: char where
  "backslash = CHR 0x5C"

text \<open>
  \<open>like_match t p\<close> is \<open>t LIKE p\<close> with the default escape character: in the pattern
  \<open>%\<close> stands for any run of characters, \<open>_\<close> for any single character, and a
  backslash makes the next pattern character literal. A pattern that ends in a lone
  backslash is rejected by the store; here it matches nothing, and \<open>dangling_escape\<close>
  recognises such patterns.
\<close>

fun like_match :: "string \<Rightarrow> string \<Rightarrow> bool" where
  "like_match [] [] = True"
| "like_match (x # t) [] = False"
| "like_match [] (c # p) = (c = CHR ''%'' \<and> like_match [] p)"
| "like_match (x # t) (c # p) =
     (if c = CHR ''%'' then like_match (x # t) p \<or> like_match t (c # p)
      else if c = CHR ''_'' then like_match t p
      else if c = backslash then
        (case p of [] \<Rightarrow> False | d # p' \<Rightarrow> x = d \<and> like_match t p')
      else x = c \<and> like_match t p)"

fun dangling_escape :: "string \<Rightarrow> bool" where
  "dangling_escape [] = False"
| "dangling_escape [c] = (c = backslash)"
| "dangling_escape (c # d # p) =
     (if c = backslash then dangling_escape p else dangling_escape (d # p))"

subsection \<open>The store's search operators\<close>

text \<open>
  Full-text search (\<open>to_tsvector\<close>, \<open>setweight\<close>, \<open>||\<close>, \<open>plainto_tsquery\<close>, \<open>@@\<close>,
  \<open>ts_rank\<close>) and the trigram functions (\<open>similarity\<close>, \<open>word_similarity\<close>) belong to the
  database, not to the repository. The query is therefore translated over a record of
  these operators; \<open>'v\<close> is the store's type of weighted token vectors and \<open>'q\<close> its type of
  parsed queries.
\<close>

datatype weight = A | B | C | D

record ('v, 'q) store_ops =
  to_tsvector :: "string \<Rightarrow> 'v"
  setweight :: "'v \<Rightarrow> weight \<Rightarrow> 'v"
  tsconcat :: "'v \<Rightarrow> 'v \<Rightarrow> 'v"
  plainto_tsquery :: "string \<Rightarrow> 'q"
  ts_match :: "'v \<Rightarrow> 'q \<Rightarrow> bool"
  ts_rank :: "'v \<Rightarrow> 'q \<Rightarrow> real"
  similarity :: "string \<Rightarrow> string \<Rightarrow> real"
  word_similarity :: "string \<Rightarrow> string \<Rightarrow> real"

subsection \<open>The query of \<open>search\<close>\<close>

definition searchPattern :: "string \<Rightarrow> string" where
  "searchPattern query = ''%'' @ query @ ''%''"

text \<open>The document of strategy 2: name (A), description (B), short description (C).\<close>

definition match_document :: "('v, 'q) store_ops \<Rightarrow> product \<Rightarrow> 'v" where
  "match_document ops p =
     tsconcat ops
       (tsconcat ops
          (setweight ops (to_tsvector ops (name p)) A)
          (setweight ops (to_tsvector ops (coalesce (description p) '''')) B))
       (setweight ops (to_tsvector ops (coalesce (shortDescription p) '''')) C)"

text \<open>The document handed to \<open>ts_rank\<close> in the \<open>ORDER BY\<close>: name (A), description (B).\<close>

definition rank_document :: "('v, 'q) store_ops \<Rightarrow> product \<Rightarrow> 'v" where
  "rank_document ops p =
     tsconcat ops
       (setweight ops (to_tsvector ops (name p)) A)
       (setweight ops (to_tsvector ops (coalesce (description p) '''')) B)"

definition strategy1 :: "string \<Rightarrow> product \<Rightarrow> bool" where
  "strategy1 query p \<longleftrightarrow>
     like_match (lower (name p)) (lower (searchPattern query)) \<or>
     like_match (lower (coalesce (description p) '''')) (lower (searchPattern query)) \<or>
     like_match (lower (coalesce (shortDescription p) '''')) (lower (searchPattern query))"

definition strategy2 :: "('v, 'q) store_ops \<Rightarrow> string \<Rightarrow> product \<Rightarrow> bool" where
  "strategy2 ops query p \<longleftrightarrow> ts_match ops (match_document ops p) (plainto_tsquery ops query)"

definition strategy3 :: "('v, 'q) store_ops \<Rightarrow> string \<Rightarrow> product \<Rightarrow> bool" where
  "strategy3 ops query p \<longleftrightarrow> similarity ops (lower (name p)) (lower query) > 0.2"

definition strategy4 :: "('v, 'q) store_ops \<Rightarrow> string \<Rightarrow> product \<Rightarrow> bool" where
  "strategy4 ops query p \<longleftrightarrow> word_similarity ops (lower query) (lower (name p)) > 0.3"

text \<open>
  The \<open>WHERE\<close> clause: \<open>and(includeInactive ? undefined : eq(isActive, true), (...))\<close>,
  where \<open>and\<close> drops an undefined operand.
\<close>

definition where_clause :: "('v, 'q) store_ops \<Rightarrow> string \<Rightarrow> bool \<Rightarrow> product \<Rightarrow> bool" where
  "where_clause ops query includeInactive p \<longleftrightarrow>
     (includeInactive \<or> isActive p) \<and>
     (strategy1 query p \<or> strategy2 ops query p \<or> strategy3 ops query p \<or>
      strategy4 ops query p)"

text \<open>The six terms of the \<open>ORDER BY\<close> expression, in the order of the source.\<close>

definition exact_bonus :: "string \<Rightarrow> product \<Rightarrow> real" where
  "exact_bonus query p = (if lower (name p) = lower query then 100 else 0)"

definition prefix_bonus :: "string \<Rightarrow> product \<Rightarrow> real" where
  "prefix_bonus query p =
     (if like_match (lower (name p)) (lower (query @ ''%'')) then 50 else 0)"

definition contains_bonus :: "string \<Rightarrow> product \<Rightarrow> real" where
  "contains_bonus query p =
     (if like_match (lower (name p)) (lower (searchPattern query)) then 25 else 0)"

definition rank_term :: "('v, 'q) store_ops \<Rightarrow> string \<Rightarrow> product \<Rightarrow> real" where
  "rank_term ops query p = ts_rank ops (rank_document ops p) (plainto_tsquery ops query) * 10"

definition trigram_term :: "('v, 'q) store_ops \<Rightarrow> string \<Rightarrow> product \<Rightarrow> real" where
  "trigram_term ops query p = similarity ops (lower (name p)) (lower query) * 30"

definition word_term :: "('v, 'q) store_ops \<Rightarrow> string \<Rightarrow> product \<Rightarrow> real" where
  "word_term ops query p = word_similarity ops (lower query) (lower (name p)) * 20"

definition score :: "('v, 'q) store_ops \<Rightarrow> string \<Rightarrow> product \<Rightarrow> real" where
  "score ops query p =
     exact_bonus query p + prefix_bonus query p + contains_bonus query p +
     rank_term ops query p + trigram_term ops query p + word_term ops query p"

text \<open>A sequence is in descending order of the expression \<open>e\<close>.\<close>

definition ordered_desc :: "('a \<Rightarrow> real) \<Rightarrow> 'a list \<Rightarrow> bool" where
  "ordered_desc e rows = sorted_wrt (\<lambda>a b. e b \<le> e a) rows"

text \<open>
  \<open>ORDER BY e DESC\<close> with no further key: the store hands back the same rows in some
  descending order of \<open>e\<close>, and the order among rows of equal \<open>e\<close> is the store's choice.
  \<open>order_by_desc e rows out\<close> says that \<open>out\<close> is one of the sequences the store may
  hand back.
\<close>

definition order_by_desc :: "('a \<Rightarrow> real) \<Rightarrow> 'a list \<Rightarrow> 'a list \<Rightarrow> bool" where
  "order_by_desc e rows out \<longleftrightarrow> mset out = mset rows \<and> ordered_desc e out"

text \<open>
  \<open>search ops store query includeInactive result\<close>: the call may end with \<open>result\<close>.
  \<open>search\<close> awaits the query and has no handler, so an error of the store is the result of
  the call; otherwise the result is the filtered rows in one of the orders of the
  \<open>ORDER BY\<close>.
\<close>

definition search ::
  "('v, 'q) store_ops \<Rightarrow> db \<Rightarrow> string \<Rightarrow> bool \<Rightarrow> store_error + product list \<Rightarrow> bool" where
  "search ops store query includeInactive result \<longleftrightarrow>
     (case select_from_products store query of
        Inl e \<Rightarrow> result = Inl e
      | Inr rows \<Rightarrow>
          (case result of
             Inl e \<Rightarrow> False
           | Inr out \<Rightarrow>
               order_by_desc (score ops query)
                 (filter (where_clause ops query includeInactive) rows) out))"

subsection \<open>Vocabulary of the properties\<close>

text \<open>The set of records a call hands to its caller; a failed call hands over none.\<close>

fun result_set :: "store_error + product list \<Rightarrow> product set" where
  "result_set (Inl e) = {}"
| "result_set (Inr rows) = set rows"

text \<open>
  A query without the three characters that \<open>LIKE\<close> reads as part of the pattern
  language.
\<close>

definition like_literal :: "string \<Rightarrow> bool" where
  "like_literal q \<longleftrightarrow> CHR ''%'' \<notin> set q \<and> CHR ''_'' \<notin> set q \<and> backslash \<notin> set q"

text \<open>The score with the prefix term left out, every other term as in \<open>score\<close>.\<close>

definition score_without_prefix :: "('v, 'q) store_ops \<Rightarrow> string \<Rightarrow> product \<Rightarrow> real" where
  "score_without_prefix ops query p =
     exact_bonus query p + contains_bonus query p +
     rank_term ops query p + trigram_term ops query p + word_term ops query p"

text \<open>
  Readings of a query with one wildcard between two literal parts \<open>a\<close> and \<open>b\<close>: the
  text holds \<open>a\<close> and, after any run of characters (after exactly one character), \<open>b\<close>;
  and the same with \<open>a\<close> at the start of the text.
\<close>

definition holds_with_run :: "string \<Rightarrow> string \<Rightarrow> string \<Rightarrow> bool" where
  "holds_with_run a b t \<longleftrightarrow> (\<exists>u v w. t = u @ a @ v @ b @ w)"

definition holds_with_char :: "string \<Rightarrow> string \<Rightarrow> string \<Rightarrow> bool" where
  "holds_with_char a b t \<longleftrightarrow> (\<exists>u c w. t = u @ a @ [c] @ b @ w)"

definition starts_with_run :: "string \<Rightarrow> string \<Rightarrow> string \<Rightarrow> bool" where
  "starts_with_run a b t \<longleftrightarrow> (\<exists>v w. t = a @ v @ b @ w)"

definition starts_with_char :: "string \<Rightarrow> string \<Rightarrow> string \<Rightarrow> bool" where
  "starts_with_char a b t \<longleftrightarrow> (\<exists>c w. t = a @ [c] @ b @ w)"

subsection \<open>The specification's wording, for comparison\<close>

text \<open>
  Strategy 1 as the specification words it: case-insensitive substring containment of the
  query in name, description or short description.
\<close>

definition spec_strategy1 :: "string \<Rightarrow> product \<Rightarrow> bool" where
  "spec_strategy1 query p \<longleftrightarrow>
     sublist (lower query) (lower (name p)) \<or>
     sublist (lower query) (lower (coalesce (description p) '''')) \<or>
     sublist (lower query) (lower (coalesce (shortDescription p) ''''))"

definition spec_included :: "('v, 'q) store_ops \<Rightarrow> string \<Rightarrow> bool \<Rightarrow> product \<Rightarrow> bool" where
  "spec_included ops query includeInactive p \<longleftrightarrow>
     (spec_strategy1 query p \<or> strategy2 ops query p \<or> strategy3 ops query p \<or>
      strategy4 ops query p) \<and>
     (includeInactive \<or> isActive p)"

text \<open>
  The composite score as the specification words it: prefix and substring tests on the
  lowercased name, and the full-text rank computed over the document of strategy 2.
\<close>

definition spec_score :: "('v, 'q) store_ops \<Rightarrow> string \<Rightarrow> product \<Rightarrow> real" where
  "spec_score ops query p =
     (if lower (name p) = lower query then 100 else 0) +
     (if prefix (lower query) (lower (name p)) then 50 else 0) +
     (if sublist (lower query) (lower (name p)) then 25 else 0) +
     ts_rank ops (match_document ops p) (plainto_tsquery ops query) * 10 +
     similarity ops (lower (name p)) (lower query) * 30 +
     word_similarity ops (lower query) (lower (name p)) * 20"

subsection \<open>A reference store for worked examples\<close>

text \<open>
  To run the query on examples the operators of the store need values. The instance below
  is a small stand-in for them: words are the maximal runs of ASCII letters and digits of
  the lowercased text (no stemming, no stop words); a parsed query matches a document that
  holds every word of the query, and an empty query matches nothing; the rank adds the
  weights (A 1, B 0.4, C 0.2, D 0.1) of the document's entries that the query names;
  \<open>similarity\<close> is the number of shared trigrams over the number of distinct trigrams of
  both strings, each word padded with two blanks in front and one behind, and 0 when a
  string has no trigram; \<open>word_similarity\<close> is the share of the first string's trigrams
  that occur in the second. The general theorems do not depend on it.
\<close>

definition is_alnum :: "char \<Rightarrow> bool" where
  "is_alnum c \<longleftrightarrow> c \<in> set ''abcdefghijklmnopqrstuvwxyz0123456789''"

fun split_words :: "string \<Rightarrow> string \<Rightarrow> string list" where
  "split_words cur [] = (if cur = [] then [] else [cur])"
| "split_words cur (c # s) =
     (if is_alnum c then split_words (cur @ [c]) s
      else if cur = [] then split_words [] s
      else cur # split_words [] s)"

definition tokens :: "string \<Rightarrow> string list" where
  "tokens s = split_words [] (lower s)"

fun windows3 :: "string \<Rightarrow> string list" where
  "windows3 (a # b # c # r) = [a, b, c] # windows3 (b # c # r)"
| "windows3 r = []"

definition trigrams :: "string \<Rightarrow> string list" where
  "trigrams s = remdups (concat (map (\<lambda>w. windows3 (''  '' @ w @ '' '')) (tokens s)))"

definition shared_trigrams :: "string \<Rightarrow> string \<Rightarrow> nat" where
  "shared_trigrams a b = length (filter (\<lambda>g. g \<in> set (trigrams b)) (trigrams a))"

definition ref_similarity :: "string \<Rightarrow> string \<Rightarrow> real" where
  "ref_similarity a b =
     (if trigrams a = [] \<or> trigrams b = [] then 0
      else real (shared_trigrams a b) /
           real (length (trigrams a) + length (trigrams b) - shared_trigrams a b))"

definition ref_word_similarity :: "string \<Rightarrow> string \<Rightarrow> real" where
  "ref_word_similarity a b =
     (if trigrams a = [] \<or> trigrams b = [] then 0
      else real (shared_trigrams a b) / real (length (trigrams a)))"

fun weight_value :: "weight \<Rightarrow> real" where
  "weight_value A = 1"
| "weight_value B = 0.4"
| "weight_value C = 0.2"
| "weight_value D = 0.1"

definition ref_to_tsvector :: "string \<Rightarrow> (string \<times> weight) list" where
  "ref_to_tsvector s = map (\<lambda>w. (w, D)) (tokens s)"

definition ref_setweight :: "(string \<times> weight) list \<Rightarrow> weight \<Rightarrow> (string \<times> weight) list" where
  "ref_setweight v w = map (\<lambda>e. (fst e, w)) v"

definition ref_ts_match :: "(string \<times> weight) list \<Rightarrow> string list \<Rightarrow> bool" where
  "ref_ts_match v q \<longleftrightarrow> q \<noteq> [] \<and> list_all (\<lambda>t. t \<in> set (map fst v)) q"

definition ref_ts_rank :: "(string \<times> weight) list \<Rightarrow> string list \<Rightarrow> real" where
  "ref_ts_rank v q =
     sum_list (map (\<lambda>e. if fst e \<in> set q then weight_value (snd e) else 0) v)"

definition reference_ops :: "((string \<times> weight) list, string list) store_ops" where
  "reference_ops =
     \<lparr>to_tsvector = ref_to_tsvector, setweight = ref_setweight, tsconcat = (@),
      plainto_tsquery = tokens, ts_match = ref_ts_match, ts_rank = ref_ts_rank,
      similarity = ref_similarity, word_similarity = ref_word_similarity\<rparr>"

text \<open>Example rows.\<close>

definition solar_kit :: product where
  "solar_kit =
     \<lparr>id = ''p1'', name = ''Solar Kit'', description = Some ''panel and mount'',
      shortDescription = None, isActive = True\<rparr>"

definition solar :: product where
  "solar =
     \<lparr>id = ''p2'', name = ''SOLAR'', description = None,
      shortDescription = Some ''roof panel'', isActive = True\<rparr>"

definition wind :: product where
  "wind =
     \<lparr>id = ''p3'', name = ''Wind'', description = None,
      shortDescription = None, isActive = False\<rparr>"

definition old_solar :: product where
  "old_solar =
     \<lparr>id = ''p4'', name = ''Solar'', description = Some '''',
      shortDescription = None, isActive = False\<rparr>"

definition lamp :: product where
  "lamp =
     \<lparr>id = ''p5'', name = ''Lamp'', description = Some ''solarium'',
      shortDescription = None, isActive = True\<rparr>"

definition hose :: product where
  "hose =
     \<lparr>id = ''p6'', name = ''Hose'', description = None,
      shortDescription = Some ''solar'', isActive = True\<rparr>"

definition slash :: product where
  "slash =
     \<lparr>id = ''p7'', name = [CHR 0x5C], description = None,
      shortDescription = None, isActive = True\<rparr>"

definition panel_500w :: product where
  "panel_500w =
     \<lparr>id = ''p8'', name = ''500W Panel'', description = None,
      shortDescription = None, isActive = True\<rparr>"

definition save_50 :: product where
  "save_50 =
     \<lparr>id = ''p9'', name = ''Save 50%'', description = None,
      shortDescription = None, isActive = True\<rparr>"

definition escaped_x :: product where
  "escaped_x =
     \<lparr>id = ''p10'', name = [CHR 0x5C, CHR ''_'', CHR ''x''], description = None,
      shortDescription = None, isActive = True\<rparr>"

definition plain_x :: product where
  "plain_x =
     \<lparr>id = ''p11'', name = ''_x'', description = None,
      shortDescription = None, isActive = True\<rparr>"

section \<open>Properties of the operators\<close>

subsection \<open>\<open>LOWER\<close>\<close>

lemma lower_char_letter:
  "lower_char c = c \<or> lower_char c \<in> set ''abcdefghijklmnopqrstuvwxyz''"
proof (cases "map_of (zip ''ABCDEFGHIJKLMNOPQRSTUVWXYZ'' ''abcdefghijklmnopqrstuvwxyz'') c")
  case None
  then show ?thesis by (simp add: lower_char_def)
next
  case (Some l)
  then have "(c, l) \<in> set (zip ''ABCDEFGHIJKLMNOPQRSTUVWXYZ'' ''abcdefghijklmnopqrstuvwxyz'')"
    by (rule map_of_SomeD)
  then have "l \<in> set ''abcdefghijklmnopqrstuvwxyz''"
    by (rule set_zip_rightD)
  with Some show ?thesis by (simp add: lower_char_def)
qed

text \<open>Lowercasing neither creates nor removes a character of the pattern language.\<close>

lemma lower_char_meta_iff:
  "lower_char c = CHR ''%'' \<longleftrightarrow> c = CHR ''%''"
  "lower_char c = CHR ''_'' \<longleftrightarrow> c = CHR ''_''"
  "lower_char c = backslash \<longleftrightarrow> c = backslash"
  using lower_char_letter [of c]
  by (auto simp: backslash_def lower_char_def)

lemma lower_char_meta_iff':
  "CHR ''%'' = lower_char c \<longleftrightarrow> c = CHR ''%''"
  "CHR ''_'' = lower_char c \<longleftrightarrow> c = CHR ''_''"
  "backslash = lower_char c \<longleftrightarrow> c = backslash"
  using lower_char_meta_iff [of c] by metis+

lemma lower_append: "lower (a @ b) = lower a @ lower b"
  by (simp add: lower_def)

lemma lower_percent: "lower ''%'' = ''%''"
  by (simp add: lower_def lower_char_def)

lemma lower_searchPattern: "lower (searchPattern q) = CHR ''%'' # lower q @ ''%''"
  by (simp add: searchPattern_def lower_def lower_char_def)

lemma lower_prefix_pattern: "lower (q @ ''%'') = lower q @ ''%''"
  by (simp add: lower_append lower_percent)

lemma backslash_lower: "backslash \<in> set (lower q) \<longleftrightarrow> backslash \<in> set q"
  by (induction q) (auto simp: lower_def lower_char_meta_iff lower_char_meta_iff')

lemma like_literal_lower: "like_literal (lower q) \<longleftrightarrow> like_literal q"
  by (induction q)
     (auto simp: like_literal_def lower_def lower_char_meta_iff lower_char_meta_iff')

subsection \<open>\<open>LIKE\<close>\<close>

lemma like_percent_all: "like_match t ''%''"
  by (induction t) auto

lemma like_percent_intro: "like_match t p \<Longrightarrow> like_match t (CHR ''%'' # p)"
  by (cases t) auto

lemma like_percent_drop: "like_match b p \<Longrightarrow> like_match (a @ b) (CHR ''%'' # p)"
  by (induction a) (auto intro: like_percent_intro)

lemma like_percent_split:
  "like_match t (CHR ''%'' # p) \<Longrightarrow> \<exists>a b. t = a @ b \<and> like_match b p"
proof (induction t)
  case Nil
  then show ?case by simp
next
  case (Cons x t)
  from Cons.prems have "like_match (x # t) p \<or> like_match t (CHR ''%'' # p)" by simp
  then show ?case
  proof
    assume "like_match (x # t) p"
    then have "x # t = [] @ (x # t) \<and> like_match (x # t) p" by simp
    then show ?thesis by blast
  next
    assume "like_match t (CHR ''%'' # p)"
    with Cons.IH obtain a b where "t = a @ b" "like_match b p" by blast
    then have "x # t = (x # a) @ b \<and> like_match b p" by simp
    then show ?thesis by blast
  qed
qed

text \<open>A leading \<open>%\<close> lets the rest of the pattern start anywhere in the text.\<close>

lemma like_percent_iff:
  "like_match t (CHR ''%'' # p) \<longleftrightarrow> (\<exists>a b. t = a @ b \<and> like_match b p)"
  using like_percent_split like_percent_drop by blast

text \<open>A trailing \<open>%\<close> lets the text go on after the match.\<close>

lemma like_match_append_percent:
  "like_match t p \<Longrightarrow> like_match (t @ s) (p @ ''%'')"
proof (induction t p rule: like_match.induct)
  case 1
  show ?case using like_percent_all [of s] by simp
next
  case (2 x t)
  then show ?case by simp
next
  case (3 c p)
  then show ?case using like_percent_intro [of s "p @ ''%''"] by simp
next
  case (4 x t c p)
  consider (percent) "c = CHR ''%''"
    | (underscore) "c \<noteq> CHR ''%''" "c = CHR ''_''"
    | (escape) "c \<noteq> CHR ''%''" "c \<noteq> CHR ''_''" "c = backslash"
    | (plain) "c \<noteq> CHR ''%''" "c \<noteq> CHR ''_''" "c \<noteq> backslash"
    by blast
  then show ?case
  proof cases
    case percent
    with "4.prems" have "like_match (x # t) p \<or> like_match t (c # p)" by simp
    then show ?thesis
    proof
      assume "like_match (x # t) p"
      with percent "4.IH"(1) show ?thesis by simp
    next
      assume "like_match t (c # p)"
      with percent "4.IH"(2) show ?thesis by simp
    qed
  next
    case underscore
    with "4.prems" "4.IH"(3) show ?thesis by simp
  next
    case escape
    show ?thesis
    proof (cases p)
      case Nil
      with escape "4.prems" show ?thesis by simp
    next
      case (Cons d p')
      with escape "4.prems" "4.IH"(4) show ?thesis by simp
    qed
  next
    case plain
    with "4.prems" "4.IH"(5) show ?thesis by simp
  qed
qed

text \<open>Without a backslash every pattern matches itself, wildcards included.\<close>

lemma like_match_self: "backslash \<notin> set p \<Longrightarrow> like_match p p"
  by (induction p) (auto intro: like_percent_intro)

text \<open>
  On a query free of \<open>%\<close>, \<open>_\<close> and backslash, the two patterns of the source are the
  prefix test and the substring test.
\<close>

lemma like_prefix_iff:
  "like_literal q \<Longrightarrow> like_match t (q @ ''%'') \<longleftrightarrow> prefix q t"
proof (induction t q rule: like_match.induct)
  case 1
  then show ?case by simp
next
  case (2 x t)
  then show ?case using like_percent_all [of "x # t"] by simp
next
  case (3 c p)
  then show ?case by (auto simp: like_literal_def)
next
  case (4 x t c p)
  then show ?case by (auto simp: like_literal_def)
qed

lemma like_sublist_iff:
  assumes "like_literal q"
  shows "like_match t (CHR ''%'' # q @ ''%'') \<longleftrightarrow> sublist q t"
proof -
  have "like_match t (CHR ''%'' # q @ ''%'') \<longleftrightarrow> (\<exists>a b. t = a @ b \<and> prefix q b)"
    using assms by (simp add: like_percent_iff like_prefix_iff)
  also have "\<dots> \<longleftrightarrow> sublist q t"
    by (auto simp: sublist_def prefix_def)
  finally show ?thesis .
qed

text \<open>
  The patterns that \<open>search\<close> builds end in \<open>%\<close>, so none of them ends in a lone
  escape character: the store never rejects them.
\<close>

lemma not_dangling_percent: "\<not> dangling_escape (q @ ''%'')"
  by (induction q rule: dangling_escape.induct) (auto simp: backslash_def)

lemma search_patterns_accepted:
  "\<not> dangling_escape (lower (searchPattern q))" "\<not> dangling_escape (lower (q @ ''%''))"
proof -
  have "lower (searchPattern q) = (CHR ''%'' # lower q) @ ''%''"
    by (simp add: lower_searchPattern)
  then show "\<not> dangling_escape (lower (searchPattern q))"
    by (simp only: not_dangling_percent not_False_eq_True)
  show "\<not> dangling_escape (lower (q @ ''%''))"
    by (simp only: lower_prefix_pattern not_dangling_percent not_False_eq_True)
qed

lemma like_pattern_of_literal:
  assumes "like_literal q"
  shows "like_match t (lower (searchPattern q)) \<longleftrightarrow> sublist (lower q) t"
    and "like_match t (lower (q @ ''%'')) \<longleftrightarrow> prefix (lower q) t"
  using assms
  by (simp_all add: lower_searchPattern lower_prefix_pattern like_sublist_iff like_prefix_iff
        like_literal_lower)

lemma like_prefix_pattern:
  assumes "prefix (lower q) t" and "backslash \<notin> set q"
  shows "like_match t (lower (q @ ''%''))"
proof -
  from assms(1) obtain r where t: "t = lower q @ r" by (auto simp: prefix_def)
  from assms(2) have "like_match (lower q) (lower q)"
    by (simp add: like_match_self backslash_lower)
  then have "like_match (lower q @ r) (lower q @ ''%'')"
    by (rule like_match_append_percent)
  with t show ?thesis by (simp add: lower_prefix_pattern)
qed

lemma like_search_pattern_self:
  assumes "backslash \<notin> set q"
  shows "like_match (lower q) (lower (searchPattern q))"
proof -
  from assms have "like_match (lower q) (lower q)"
    by (simp add: like_match_self backslash_lower)
  then have "like_match (lower q @ []) (lower q @ ''%'')"
    by (rule like_match_append_percent)
  then have "like_match (lower q) (CHR ''%'' # lower q @ ''%'')"
    by (simp add: like_percent_intro)
  then show ?thesis by (simp add: lower_searchPattern)
qed

text \<open>A literal character, a literal part and \<open>_\<close> at the head of a pattern.\<close>

lemma like_literal_Cons:
  assumes "c \<noteq> CHR ''%''" and "c \<noteq> CHR ''_''" and "c \<noteq> backslash"
  shows "like_match t (c # p) \<longleftrightarrow> (\<exists>r. t = c # r \<and> like_match r p)"
  using assms by (cases t) auto

lemma like_literal_append:
  "like_literal a \<Longrightarrow> like_match t (a @ p) \<longleftrightarrow> (\<exists>r. t = a @ r \<and> like_match r p)"
proof (induction a arbitrary: t)
  case Nil
  then show ?case by simp
next
  case (Cons c a)
  then have c: "c \<noteq> CHR ''%''" "c \<noteq> CHR ''_''" "c \<noteq> backslash" and a: "like_literal a"
    by (auto simp: like_literal_def)
  have "like_match t ((c # a) @ p) \<longleftrightarrow> (\<exists>r. t = c # r \<and> like_match r (a @ p))"
    using c by (simp add: like_literal_Cons)
  also have "\<dots> \<longleftrightarrow> (\<exists>r. t = c # r \<and> (\<exists>s. r = a @ s \<and> like_match s p))"
    using Cons.IH [OF a] by simp
  also have "\<dots> \<longleftrightarrow> (\<exists>s. t = (c # a) @ s \<and> like_match s p)"
    by auto
  finally show ?case .
qed

lemma like_underscore_iff:
  "like_match t (CHR ''_'' # p) \<longleftrightarrow> (\<exists>c r. t = c # r \<and> like_match r p)"
  by (cases t) auto

text \<open>One wildcard between two literal parts, in the two patterns of the source.\<close>

lemma like_starts_with_run:
  assumes "like_literal a" and "like_literal b"
  shows "like_match t (a @ CHR ''%'' # b @ ''%'') \<longleftrightarrow> starts_with_run a b t"
proof -
  have "like_match t (a @ CHR ''%'' # b @ ''%'') \<longleftrightarrow>
        (\<exists>r. t = a @ r \<and> like_match r (CHR ''%'' # b @ ''%''))"
    using assms(1) by (rule like_literal_append)
  also have "\<dots> \<longleftrightarrow> (\<exists>r. t = a @ r \<and> sublist b r)"
    using assms(2) by (simp add: like_sublist_iff)
  also have "\<dots> \<longleftrightarrow> starts_with_run a b t"
    by (auto simp: starts_with_run_def sublist_def)
  finally show ?thesis .
qed

lemma like_holds_with_run:
  assumes "like_literal a" and "like_literal b"
  shows "like_match t (CHR ''%'' # a @ CHR ''%'' # b @ ''%'') \<longleftrightarrow> holds_with_run a b t"
proof -
  have "like_match t (CHR ''%'' # a @ CHR ''%'' # b @ ''%'') \<longleftrightarrow>
        (\<exists>u r. t = u @ r \<and> starts_with_run a b r)"
    using assms by (simp add: like_percent_iff like_starts_with_run)
  also have "\<dots> \<longleftrightarrow> holds_with_run a b t"
    by (auto simp: starts_with_run_def holds_with_run_def)
  finally show ?thesis .
qed

lemma like_starts_with_char:
  assumes "like_literal a" and "like_literal b"
  shows "like_match t (a @ CHR ''_'' # b @ ''%'') \<longleftrightarrow> starts_with_char a b t"
proof -
  have "like_match t (a @ CHR ''_'' # b @ ''%'') \<longleftrightarrow>
        (\<exists>r. t = a @ r \<and> like_match r (CHR ''_'' # b @ ''%''))"
    using assms(1) by (rule like_literal_append)
  also have "\<dots> \<longleftrightarrow> (\<exists>r. t = a @ r \<and> (\<exists>c s. r = c # s \<and> prefix b s))"
    using assms(2) by (simp add: like_underscore_iff like_prefix_iff)
  also have "\<dots> \<longleftrightarrow> starts_with_char a b t"
    by (auto simp: starts_with_char_def prefix_def)
  finally show ?thesis .
qed

lemma like_holds_with_char:
  assumes "like_literal a" and "like_literal b"
  shows "like_match t (CHR ''%'' # a @ CHR ''_'' # b @ ''%'') \<longleftrightarrow> holds_with_char a b t"
proof -
  have "like_match t (CHR ''%'' # a @ CHR ''_'' # b @ ''%'') \<longleftrightarrow>
        (\<exists>u r. t = u @ r \<and> starts_with_char a b r)"
    using assms by (simp add: like_percent_iff like_starts_with_char)
  also have "\<dots> \<longleftrightarrow> holds_with_char a b t"
    by (auto simp: starts_with_char_def holds_with_char_def)
  finally show ?thesis .
qed

lemma lower_wildcard_patterns:
  "lower (searchPattern (a @ ''%'' @ b)) = CHR ''%'' # lower a @ CHR ''%'' # lower b @ ''%''"
  "lower ((a @ ''%'' @ b) @ ''%'') = lower a @ CHR ''%'' # lower b @ ''%''"
  "lower (searchPattern (a @ ''_'' @ b)) = CHR ''%'' # lower a @ CHR ''_'' # lower b @ ''%''"
  "lower ((a @ ''_'' @ b) @ ''%'') = lower a @ CHR ''_'' # lower b @ ''%''"
  by (simp_all add: searchPattern_def lower_def lower_char_def)

lemma nul_lower: "nul \<in> set (lower q) \<longleftrightarrow> nul \<in> set q"
proof -
  have "lower_char c = nul \<longleftrightarrow> c = nul" for c
    using lower_char_letter [of c] by (auto simp: nul_def lower_char_def)
  then show ?thesis
    by (induction q) (auto simp: lower_def eq_commute [of nul])
qed

subsection \<open>\<open>ORDER BY\<close> and the query as a whole\<close>

lemma order_by_desc_set: "order_by_desc e rows out \<Longrightarrow> set out = set rows"
  by (auto simp: order_by_desc_def dest: mset_eq_setD)

text \<open>The store can always hand back an order: a sort of the rows is one.\<close>

lemma order_by_desc_sort: "order_by_desc e rows (sort_key (\<lambda>r. - e r) rows)"
proof -
  have "sorted (map (\<lambda>r. - e r) (sort_key (\<lambda>r. - e r) rows))"
    by (rule sorted_sort_key)
  then show ?thesis
    by (simp add: order_by_desc_def ordered_desc_def sorted_map)
qed

lemma order_by_desc_Nil: "order_by_desc e [] out \<longleftrightarrow> out = []"
  by (auto simp: order_by_desc_def ordered_desc_def)




lemma search_rejected:
  "nul \<in> set query \<Longrightarrow>
   search ops (Connected rows) query includeInactive r \<longleftrightarrow> r = Inl InvalidByteSequence"
  by (simp add: search_def)

lemma search_Connected:
  "nul \<notin> set query \<Longrightarrow>
   search ops (Connected rows) query includeInactive r \<longleftrightarrow>
     (\<exists>out. r = Inr out \<and>
        order_by_desc (score ops query)
          (filter (where_clause ops query includeInactive) rows) out)"
  by (cases r) (simp_all add: search_def)

lemma search_Inl:
  "search ops store query includeInactive (Inl e) \<longleftrightarrow> select_from_products store query = Inl e"
  by (cases "select_from_products store query") (auto simp: search_def)

lemma search_Inr:
  "search ops store query includeInactive (Inr out) \<longleftrightarrow>
     (\<exists>rows. store = Connected rows \<and> nul \<notin> set query \<and>
        order_by_desc (score ops query)
          (filter (where_clause ops query includeInactive) rows) out)"
  by (cases store) (auto simp: search_def)

text \<open>Every call ends with a result.\<close>

lemma search_total: "\<exists>r. search ops store query includeInactive r"
proof (cases "select_from_products store query")
  case (Inl e)
  then have "search ops store query includeInactive (Inl e)"
    by (simp add: search_Inl)
  then show ?thesis ..
next
  case (Inr rows)
  let ?out = "sort_key (\<lambda>r. - score ops query r)
                (filter (where_clause ops query includeInactive) rows)"
  from Inr have "search ops store query includeInactive (Inr ?out)"
    by (simp add: search_def order_by_desc_sort)
  then show ?thesis ..
qed

text \<open>A result is recognised by computing the filter and checking the order.\<close>

lemma search_resultI:
  assumes "nul \<notin> set query"
    and "filter (where_clause ops query includeInactive) rows = matched"
    and "mset out = mset matched"
    and "ordered_desc (score ops query) out"
  shows "search ops (Connected rows) query includeInactive (Inr out)"
  using assms by (simp add: search_def order_by_desc_def)

text \<open>The records of a result are the rows that satisfy the \<open>WHERE\<close> clause.\<close>

lemma result_set_search:
  assumes "search ops store query includeInactive r"
  shows "result_set r =
           (case select_from_products store query of
              Inl e \<Rightarrow> {}
            | Inr rows \<Rightarrow> {p \<in> set rows. where_clause ops query includeInactive p})"
proof (cases "select_from_products store query")
  case (Inl e)
  with assms show ?thesis by (simp add: search_def)
next
  case (Inr rows)
  with assms obtain out where "r = Inr out"
    and "order_by_desc (score ops query) (filter (where_clause ops query includeInactive) rows) out"
    by (cases r) (auto simp: search_def)
  with Inr show ?thesis by (auto dest: order_by_desc_set)
qed

subsection \<open>Worked calls on the reference store\<close>

lemma example_search_active:
  "search reference_ops (Connected [solar_kit, solar, wind, old_solar]) ''solar'' False
     (Inr [solar, solar_kit])"
proof (rule search_resultI [where matched = "[solar_kit, solar]"])
  show "nul \<notin> set ''solar''" by (simp add: nul_def)
  show "filter (where_clause reference_ops ''solar'' False) [solar_kit, solar, wind, old_solar] =
          [solar_kit, solar]"
    by code_simp
  show "mset [solar, solar_kit] = mset [solar_kit, solar]" by simp
  show "ordered_desc (score reference_ops ''solar'') [solar, solar_kit]" by code_simp
qed

lemma example_search_all:
  "search reference_ops (Connected [solar_kit, solar, wind, old_solar]) ''solar'' True
     (Inr [solar, old_solar, solar_kit])"
proof (rule search_resultI [where matched = "[solar_kit, solar, old_solar]"])
  show "nul \<notin> set ''solar''" by (simp add: nul_def)
  show "filter (where_clause reference_ops ''solar'' True) [solar_kit, solar, wind, old_solar] =
          [solar_kit, solar, old_solar]"
    by code_simp
  show "mset [solar, old_solar, solar_kit] = mset [solar_kit, solar, old_solar]" by simp
  show "ordered_desc (score reference_ops ''solar'') [solar, old_solar, solar_kit]" by code_simp
qed

lemma example_scores:
  "score reference_ops ''solar'' solar = 235"
  "score reference_ops ''solar'' old_solar = 235"
  "score reference_ops ''solar'' solar_kit = 123"
  by code_simp+

section \<open>The claims\<close>

subsection \<open>Failure\<close>


subsection \<open>Empty results\<close>

text \<open>
  C8, as stated: for every query, searching an empty store returns the empty sequence and
  raises no error. This fails for a query that holds a NUL byte: the store rejects the
  statement, and the call on the empty store ends with the error and not with the empty
  sequence.
\<close>

theorem search_no_match_counterexample:
  "search reference_ops (Connected []) [CHR ''a'', CHR 0x00, CHR ''b''] True
     (Inl InvalidByteSequence) \<and>
   \<not> search reference_ops (Connected []) [CHR ''a'', CHR 0x00, CHR ''b''] True (Inr [])"
  by (simp add: search_def nul_def)

text \<open>
  C8, amended: for every query that holds no NUL byte, searching a reachable empty store,
  or a reachable store none of whose rows satisfies the \<open>WHERE\<close> clause, returns the
  empty sequence and nothing else.
\<close>

theorem search_no_match_empty:
  assumes "nul \<notin> set query"
  shows "(search ops (Connected []) query includeInactive r \<longleftrightarrow> r = Inr []) \<and>
         ((\<forall>p \<in> set rows. \<not> where_clause ops query includeInactive p) \<longrightarrow>
            (search ops (Connected rows) query includeInactive r \<longleftrightarrow> r = Inr []))"
proof -
  have "search ops (Connected rows') query includeInactive r \<longleftrightarrow> r = Inr []"
    if "\<forall>p \<in> set rows'. \<not> where_clause ops query includeInactive p" for rows'
  proof -
    from that have "filter (where_clause ops query includeInactive) rows' = []"
      by (simp add: filter_empty_conv)
    with assms show ?thesis
      by (auto simp: search_Connected order_by_desc_Nil)
  qed
  from this [of "[]"] this [of rows] show ?thesis by simp
qed

text \<open>
  Witness for C8 (amended): the inactive row \<open>Wind\<close> matches the query \<open>solar\<close> by no
  strategy, and a call on the store that holds only this row returns the empty sequence.
\<close>

theorem search_no_match_empty_witness:
  "nul \<notin> set ''solar'' \<and> \<not> where_clause reference_ops ''solar'' True wind \<and>
   search reference_ops (Connected [wind]) ''solar'' True (Inr []) \<and>
   \<not> search reference_ops (Connected [wind]) ''solar'' True (Inr [wind])"
proof -
  have n: "nul \<notin> set ''solar''" by (simp add: nul_def)
  have h: "\<not> where_clause reference_ops ''solar'' True wind"
    by code_simp
  then have "\<forall>p \<in> set [wind]. \<not> where_clause reference_ops ''solar'' True p"
    by simp
  with search_no_match_empty [OF n, of reference_ops True _ "[wind]"]
  have "search reference_ops (Connected [wind]) ''solar'' True r \<longleftrightarrow> r = Inr []" for r
    by blast
  with n h show ?thesis by simp
qed

subsection \<open>The active filter\<close>

text \<open>
  C3. For every query and every state of the store, the records of a result with
  \<open>includeInactive = false\<close> are among the records of a result with
  \<open>includeInactive = true\<close>.
\<close>

theorem search_inactive_superset:
  assumes "search ops store query False r1" and "search ops store query True r2"
  shows "result_set r1 \<subseteq> result_set r2"
proof (cases "select_from_products store query")
  case (Inl e)
  with result_set_search [OF assms(1)] show ?thesis by simp
next
  case (Inr rows)
  with result_set_search [OF assms(1)] result_set_search [OF assms(2)]
  show ?thesis by (auto simp: where_clause_def)
qed

text \<open>
  Witness for C3: the query \<open>solar\<close> on a store of four rows; the inactive row \<open>Solar\<close> is
  returned with the flag only.
\<close>

theorem search_inactive_superset_witness:
  "search reference_ops (Connected [solar_kit, solar, wind, old_solar]) ''solar'' False
     (Inr [solar, solar_kit]) \<and>
   search reference_ops (Connected [solar_kit, solar, wind, old_solar]) ''solar'' True
     (Inr [solar, old_solar, solar_kit]) \<and>
   set [solar, solar_kit] \<subseteq> set [solar, old_solar, solar_kit]"
  using search_inactive_superset [OF example_search_active example_search_all]
    example_search_active example_search_all
  by simp

subsection \<open>Repeated invocation\<close>




subsection \<open>Absent descriptions\<close>

text \<open>
  C9. A product whose description (or short description) is null is matched and scored
  exactly as the same product with the empty string in that column.
\<close>

theorem null_description_as_empty:
  "where_clause ops query includeInactive (p\<lparr>description := None\<rparr>) =
     where_clause ops query includeInactive (p\<lparr>description := Some ''''\<rparr>) \<and>
   score ops query (p\<lparr>description := None\<rparr>) = score ops query (p\<lparr>description := Some ''''\<rparr>) \<and>
   where_clause ops query includeInactive (p\<lparr>shortDescription := None\<rparr>) =
     where_clause ops query includeInactive (p\<lparr>shortDescription := Some ''''\<rparr>) \<and>
   score ops query (p\<lparr>shortDescription := None\<rparr>) =
     score ops query (p\<lparr>shortDescription := Some ''''\<rparr>)"
  by (simp add: where_clause_def strategy1_def strategy2_def strategy3_def strategy4_def
        match_document_def score_def exact_bonus_def prefix_bonus_def contains_bonus_def
        rank_term_def rank_document_def trigram_term_def word_term_def)

subsection \<open>Wildcards in the query\<close>

text \<open>
  C10. Strategy 1 and the prefix and substring bonuses read \<open>%\<close> and \<open>_\<close> in the query as
  wildcards, not as characters. For a query \<open>a%b\<close> with literal parts \<open>a\<close> and \<open>b\<close>, a
  column satisfies strategy 1 exactly when it holds \<open>a\<close> and, after any run of characters,
  \<open>b\<close>; the 25 points go to exactly the names that do, and the 50 points to exactly the
  names that do so from their start. For a query \<open>a_b\<close> the same holds with exactly one
  character between the parts. In particular the query \<open>%\<close> satisfies strategy 1 and
  earns the 25 points (and the 50 points) on every product, whatever its columns hold.
\<close>

theorem like_wildcards_in_query:
  assumes "like_literal a" and "like_literal b"
  shows "(strategy1 (a @ ''%'' @ b) p \<longleftrightarrow>
            holds_with_run (lower a) (lower b) (lower (name p)) \<or>
            holds_with_run (lower a) (lower b) (lower (coalesce (description p) '''')) \<or>
            holds_with_run (lower a) (lower b) (lower (coalesce (shortDescription p) ''''))) \<and>
         contains_bonus (a @ ''%'' @ b) p =
           (if holds_with_run (lower a) (lower b) (lower (name p)) then 25 else 0) \<and>
         prefix_bonus (a @ ''%'' @ b) p =
           (if starts_with_run (lower a) (lower b) (lower (name p)) then 50 else 0) \<and>
         (strategy1 (a @ ''_'' @ b) p \<longleftrightarrow>
            holds_with_char (lower a) (lower b) (lower (name p)) \<or>
            holds_with_char (lower a) (lower b) (lower (coalesce (description p) '''')) \<or>
            holds_with_char (lower a) (lower b) (lower (coalesce (shortDescription p) ''''))) \<and>
         contains_bonus (a @ ''_'' @ b) p =
           (if holds_with_char (lower a) (lower b) (lower (name p)) then 25 else 0) \<and>
         prefix_bonus (a @ ''_'' @ b) p =
           (if starts_with_char (lower a) (lower b) (lower (name p)) then 50 else 0) \<and>
         strategy1 ''%'' p \<and> contains_bonus ''%'' p = 25 \<and> prefix_bonus ''%'' p = 50"
proof -
  from assms have lit: "like_literal (lower a)" "like_literal (lower b)"
    by (simp_all add: like_literal_lower)
  have run: "like_match t (lower (searchPattern (a @ ''%'' @ b))) \<longleftrightarrow>
      holds_with_run (lower a) (lower b) t" for t
    using lit by (simp only: lower_wildcard_patterns like_holds_with_run)
  have run_start: "like_match t (lower ((a @ ''%'' @ b) @ ''%'')) \<longleftrightarrow>
      starts_with_run (lower a) (lower b) t" for t
    using lit by (simp only: lower_wildcard_patterns like_starts_with_run)
  have char: "like_match t (lower (searchPattern (a @ ''_'' @ b))) \<longleftrightarrow>
      holds_with_char (lower a) (lower b) t" for t
    using lit by (simp only: lower_wildcard_patterns like_holds_with_char)
  have char_start: "like_match t (lower ((a @ ''_'' @ b) @ ''%'')) \<longleftrightarrow>
      starts_with_char (lower a) (lower b) t" for t
    using lit by (simp only: lower_wildcard_patterns like_starts_with_char)
  have any: "like_match t ''%%%''" "like_match t ''%%''" for t
    using like_percent_all [of t] by (simp_all add: like_percent_intro)
  have pats: "lower ''%%%'' = ''%%%''" "lower ''%%'' = ''%%''"
    by (simp_all add: lower_def lower_char_def)
  have percent: "strategy1 ''%'' p \<and> contains_bonus ''%'' p = 25 \<and> prefix_bonus ''%'' p = 50"
    by (simp add: strategy1_def contains_bonus_def prefix_bonus_def searchPattern_def pats any)
  have wild: "(strategy1 (a @ ''%'' @ b) p \<longleftrightarrow>
            holds_with_run (lower a) (lower b) (lower (name p)) \<or>
            holds_with_run (lower a) (lower b) (lower (coalesce (description p) '''')) \<or>
            holds_with_run (lower a) (lower b) (lower (coalesce (shortDescription p) '''')))"
    "contains_bonus (a @ ''%'' @ b) p =
           (if holds_with_run (lower a) (lower b) (lower (name p)) then 25 else 0)"
    "prefix_bonus (a @ ''%'' @ b) p =
           (if starts_with_run (lower a) (lower b) (lower (name p)) then 50 else 0)"
    "(strategy1 (a @ ''_'' @ b) p \<longleftrightarrow>
            holds_with_char (lower a) (lower b) (lower (name p)) \<or>
            holds_with_char (lower a) (lower b) (lower (coalesce (description p) '''')) \<or>
            holds_with_char (lower a) (lower b) (lower (coalesce (shortDescription p) '''')))"
    "contains_bonus (a @ ''_'' @ b) p =
           (if holds_with_char (lower a) (lower b) (lower (name p)) then 25 else 0)"
    "prefix_bonus (a @ ''_'' @ b) p =
           (if starts_with_char (lower a) (lower b) (lower (name p)) then 50 else 0)"
    by (simp_all only: strategy1_def contains_bonus_def prefix_bonus_def run run_start char
          char_start)
  from wild percent show ?thesis by blast
qed

text \<open>
  Witness for C10: the query \<open>s%r\<close>. The name \<open>SOLAR\<close> holds \<open>s\<close>, a run and \<open>r\<close> from its
  start and earns both bonuses, although no column of the product contains \<open>s%r\<close>; the
  product \<open>Wind\<close> does not match, so its name does not hold \<open>s\<close> and later \<open>r\<close>.
\<close>

theorem like_wildcards_in_query_witness:
  "like_literal ''s'' \<and> like_literal ''r'' \<and> \<not> spec_strategy1 ''s%r'' solar \<and>
   strategy1 ''s%r'' solar \<and> contains_bonus ''s%r'' solar = 25 \<and>
   prefix_bonus ''s%r'' solar = 50 \<and>
   \<not> strategy1 ''s%r'' wind \<and> \<not> holds_with_run ''s'' ''r'' ''wind''"
proof -
  have l: "like_literal ''s''" "like_literal ''r''" by code_simp+
  have low: "lower ''s'' = ''s''" "lower ''r'' = ''r''" "lower (name solar) = ''solar''"
    "lower (name wind) = ''wind''"
    by code_simp+
  have q: "''s'' @ ''%'' @ ''r'' = ''s%r''" by simp
  have n: "\<not> spec_strategy1 ''s%r'' solar" by code_simp
  have w: "\<not> strategy1 ''s%r'' wind" by code_simp
  have s1: "starts_with_run ''s'' ''r'' ''solar''"
    unfolding starts_with_run_def
    by (rule exI [of _ "''ola''"], rule exI [of _ "[]"]) simp
  have s2: "holds_with_run ''s'' ''r'' ''solar''"
    unfolding holds_with_run_def
    by (rule exI [of _ "[]"], rule exI [of _ "''ola''"], rule exI [of _ "[]"]) simp
  note s = s1 s2
  note solar_facts = like_wildcards_in_query [OF l, of solar, unfolded low q]
  note wind_facts = like_wildcards_in_query [OF l, of wind, unfolded low q]
  from solar_facts s have "strategy1 ''s%r'' solar" "contains_bonus ''s%r'' solar = 25"
    "prefix_bonus ''s%r'' solar = 50"
    by simp_all
  moreover from wind_facts w have "\<not> holds_with_run ''s'' ''r'' ''wind''"
    by blast
  ultimately show ?thesis using l n w by simp
qed

subsection \<open>Membership\<close>

text \<open>
  C2, as stated: a record is returned if and only if it satisfies one of the four
  strategies, the first being case-insensitive substring containment, and passes the
  active filter. This fails for the query \<open>%\<close>: the product \<open>Lamp\<close> is returned, and no
  column of it contains a \<open>%\<close>, nor does any other strategy match.
\<close>

theorem search_membership_counterexample:
  "search reference_ops (Connected [lamp]) ''%'' False (Inr [lamp]) \<and>
   \<not> spec_included reference_ops ''%'' False lamp"
proof -
  have "search reference_ops (Connected [lamp]) ''%'' False (Inr [lamp])"
  proof (rule search_resultI [where matched = "[lamp]"])
    show "nul \<notin> set ''%''" by (simp add: nul_def)
    show "filter (where_clause reference_ops ''%'' False) [lamp] = [lamp]" by code_simp
    show "mset [lamp] = mset [lamp]" by simp
    show "ordered_desc (score reference_ops ''%'') [lamp]" by (simp add: ordered_desc_def)
  qed
  moreover have "\<not> spec_included reference_ops ''%'' False lamp" by code_simp
  ultimately show ?thesis by simp
qed

text \<open>
  C2, amended: a row of the store is returned if and only if it passes the active filter
  (when \<open>includeInactive\<close> is false) and satisfies one of the four strategies, where
  strategy 1 is the \<open>LIKE\<close> match of the lowercased name, description or short description
  against the lowercased pattern \<open>%query%\<close>. For a query without \<open>%\<close>, \<open>_\<close> and
  backslash, strategy 1 is case-insensitive substring containment.
\<close>

theorem search_membership:
  assumes "search ops (Connected rows) query includeInactive (Inr rs)"
  shows "(p \<in> set rs \<longleftrightarrow>
            p \<in> set rows \<and> (includeInactive \<or> isActive p) \<and>
            (strategy1 query p \<or> strategy2 ops query p \<or> strategy3 ops query p \<or>
             strategy4 ops query p)) \<and>
         (like_literal query \<longrightarrow> (strategy1 query p \<longleftrightarrow> spec_strategy1 query p))"
proof -
  from assms have "set rs = {p \<in> set rows. where_clause ops query includeInactive p}"
    by (auto simp: search_Inr dest: order_by_desc_set)
  then have member: "p \<in> set rs \<longleftrightarrow>
      p \<in> set rows \<and> (includeInactive \<or> isActive p) \<and>
      (strategy1 query p \<or> strategy2 ops query p \<or> strategy3 ops query p \<or>
       strategy4 ops query p)"
    by (simp add: where_clause_def)
  have "strategy1 query p \<longleftrightarrow> spec_strategy1 query p" if "like_literal query"
    using that by (simp add: strategy1_def spec_strategy1_def like_pattern_of_literal)
  with member show ?thesis by blast
qed

text \<open>
  Witness for C2 (amended): the query \<open>solar\<close> on a store of four rows; the inactive row
  \<open>Solar\<close> satisfies strategy 1 and is left out by the active filter.
\<close>

theorem search_membership_witness:
  "search reference_ops (Connected [solar_kit, solar, wind, old_solar]) ''solar'' False
     (Inr [solar, solar_kit]) \<and>
   like_literal ''solar'' \<and>
   old_solar \<notin> set [solar, solar_kit] \<and> \<not> isActive old_solar \<and>
   strategy1 ''solar'' old_solar \<and> spec_strategy1 ''solar'' old_solar"
proof -
  have l: "like_literal ''solar''"
    by code_simp
  have s: "strategy1 ''solar'' old_solar"
    by code_simp
  have a: "\<not> isActive old_solar"
    by (simp add: old_solar_def)
  from search_membership [OF example_search_active, of old_solar] l s a example_search_active
  show ?thesis by blast
qed

subsection \<open>Exact matches\<close>

text \<open>
  C4, as stated: a product whose name equals the query case-insensitively, and which passes
  the active filter, appears in the results. This fails for the active product named by a
  single backslash and the query that is this name: in the pattern the backslash escapes
  the closing \<open>%\<close>, the name does not match it, and the name has neither a word nor a
  trigram for the other strategies.
\<close>

theorem exact_name_match_counterexample:
  "lower (name slash) = lower [CHR 0x5C] \<and> isActive slash \<and>
   search reference_ops (Connected [slash]) [CHR 0x5C] False (Inr [])"
proof -
  have "search reference_ops (Connected [slash]) [CHR 0x5C] False (Inr [])"
  proof (rule search_resultI [where matched = "[]"])
    show "nul \<notin> set [CHR 0x5C]" by (simp add: nul_def)
    show "filter (where_clause reference_ops [CHR 0x5C] False) [slash] = []" by code_simp
    show "mset [] = mset ([] :: product list)" by simp
    show "ordered_desc (score reference_ops [CHR 0x5C]) []" by (simp add: ordered_desc_def)
  qed
  moreover have "lower (name slash) = lower [CHR 0x5C]" "isActive slash" by code_simp+
  ultimately show ?thesis by simp
qed

text \<open>
  C4, amended: for a product of the store whose name equals the query case-insensitively
  and which passes the active filter, the exact-match term of its score is 100; and it
  appears in every result of the call whenever the query holds no backslash. The name is a
  text of the store and as such holds no NUL byte.
\<close>

theorem exact_name_match:
  assumes "p \<in> set rows" and "lower (name p) = lower query"
    and "includeInactive \<or> isActive p"
    and "nul \<notin> set (name p)"
    and "search ops (Connected rows) query includeInactive r"
  shows "exact_bonus query p = 100 \<and>
         score ops query p =
           100 + prefix_bonus query p + contains_bonus query p + rank_term ops query p +
           trigram_term ops query p + word_term ops query p \<and>
         (backslash \<notin> set query \<longrightarrow> p \<in> result_set r)"
proof -
  from assms(2) have exact: "exact_bonus query p = 100"
    by (simp add: exact_bonus_def)
  from assms(4) have "nul \<notin> set (lower (name p))"
    by (simp add: nul_lower)
  with assms(2) have nul: "nul \<notin> set query"
    by (simp add: nul_lower)
  have "p \<in> result_set r" if "backslash \<notin> set query"
  proof -
    from that have "like_match (lower query) (lower (searchPattern query))"
      by (rule like_search_pattern_self)
    with assms(2) have "strategy1 query p"
      by (simp add: strategy1_def)
    with assms(1,3) nul result_set_search [OF assms(5)] show ?thesis
      by (simp add: where_clause_def)
  qed
  with exact show ?thesis by (simp add: score_def)
qed

text \<open>
  Witness for C4 (amended): the product \<open>SOLAR\<close> and the query \<open>solar\<close>.
\<close>

theorem exact_name_match_witness:
  "solar \<in> set [solar_kit, solar, wind, old_solar] \<and> lower (name solar) = lower ''solar'' \<and>
   isActive solar \<and> nul \<notin> set (name solar) \<and> backslash \<notin> set ''solar'' \<and>
   search reference_ops (Connected [solar_kit, solar, wind, old_solar]) ''solar'' False
     (Inr [solar, solar_kit]) \<and>
   exact_bonus ''solar'' solar = 100 \<and> solar \<in> set [solar, solar_kit]"
proof -
  have h1: "solar \<in> set [solar_kit, solar, wind, old_solar]" by simp
  have h2: "lower (name solar) = lower ''solar''" by code_simp
  have h3: "isActive solar" by (simp add: solar_def)
  have h4: "nul \<notin> set (name solar)" by (simp add: solar_def nul_def)
  have h5: "backslash \<notin> set ''solar''" by (simp add: backslash_def)
  from h3 have "False \<or> isActive solar" by simp
  from exact_name_match [OF h1 h2 this h4 example_search_active] h1 h2 h3 h4 h5
    example_search_active
  show ?thesis by simp
qed

subsection \<open>The prefix bonus\<close>

text \<open>
  C6, as stated: a name that starts with the query (both lowercased) scores at least what
  it would score without the prefix property, all other terms equal, through the 50 points
  of the prefix term. This fails for the query made of a backslash and an underscore. The
  name that starts with these two characters, followed by \<open>x\<close>, gets no prefix points:
  the pattern asks for a name that starts with an underscore. The name \<open>_x\<close>, which
  does not start with the query, gets the 50 points. Every other term of the two scores is
  the same, so the name with the prefix property scores 25 and the name without it 75.
\<close>

theorem prefix_bonus_counterexample:
  "prefix (lower [CHR 0x5C, CHR ''_'']) (lower (name escaped_x)) \<and>
   prefix_bonus [CHR 0x5C, CHR ''_''] escaped_x = 0 \<and>
   \<not> prefix (lower [CHR 0x5C, CHR ''_'']) (lower (name plain_x)) \<and>
   prefix_bonus [CHR 0x5C, CHR ''_''] plain_x = 50 \<and>
   score_without_prefix reference_ops [CHR 0x5C, CHR ''_''] escaped_x =
     score_without_prefix reference_ops [CHR 0x5C, CHR ''_''] plain_x \<and>
   score reference_ops [CHR 0x5C, CHR ''_''] escaped_x = 25 \<and>
   score reference_ops [CHR 0x5C, CHR ''_''] plain_x = 75"
  by code_simp

text \<open>
  C6, amended: if the lowercased name starts with the lowercased query and the query holds
  no backslash, the prefix term is the full 50 points: the score is the score without the
  prefix term, every other term equal, plus 50, and so at least that score.
\<close>

theorem prefix_bonus_monotone:
  assumes "prefix (lower query) (lower (name p))" and "backslash \<notin> set query"
  shows "prefix_bonus query p = 50 \<and>
         score ops query p = score_without_prefix ops query p + 50 \<and>
         score_without_prefix ops query p \<le> score ops query p"
proof -
  from assms have "like_match (lower (name p)) (lower (query @ ''%''))"
    by (rule like_prefix_pattern)
  then have "prefix_bonus query p = 50"
    by (simp add: prefix_bonus_def)
  then show ?thesis
    by (simp add: score_def score_without_prefix_def)
qed

text \<open>
  Witness for C6 (amended): the product \<open>Solar Kit\<close> and the query \<open>solar\<close>, with the
  scores 123 and 73.
\<close>

theorem prefix_bonus_monotone_witness:
  "prefix (lower ''solar'') (lower (name solar_kit)) \<and> backslash \<notin> set ''solar'' \<and>
   prefix_bonus ''solar'' solar_kit = 50 \<and>
   score_without_prefix reference_ops ''solar'' solar_kit = 73 \<and>
   score reference_ops ''solar'' solar_kit = 123"
proof -
  have h: "prefix (lower ''solar'') (lower (name solar_kit))" by code_simp
  have b: "backslash \<notin> set ''solar''" by (simp add: backslash_def)
  have v: "score_without_prefix reference_ops ''solar'' solar_kit = 73" by code_simp
  from prefix_bonus_monotone [OF h b, of reference_ops] b v h show ?thesis by simp
qed

subsection \<open>Ordering\<close>

text \<open>
  C1, as stated: the results are in descending order of the sum of 100 (equal names), 50
  (name starts with the query), 25 (name contains the query), ten times the full-text rank
  over the document of strategy 2 (name A, description B, short description C), thirty
  times the trigram similarity and twenty times the word similarity. This fails twice.
  For the query \<open>50%\<close> the row \<open>500W Panel\<close>, whose name neither starts with nor contains
  \<open>50%\<close>, earns the 50 and the 25 points through the wildcard and is returned before
  \<open>Save 50%\<close>, which the sum above puts first. For the query \<open>solar\<close> on the rows \<open>Lamp\<close>
  and \<open>Hose\<close>, the word \<open>solar\<close> stands in the short description of \<open>Hose\<close> only; the
  source ranks over name and description, both rows score 0, and \<open>Lamp\<close> before \<open>Hose\<close>
  is a result, while the sum above puts \<open>Hose\<close> first.
\<close>

theorem search_order_counterexample:
  "search reference_ops (Connected [save_50, panel_500w]) ''50%'' False
     (Inr [panel_500w, save_50]) \<and>
   spec_score reference_ops ''50%'' panel_500w < spec_score reference_ops ''50%'' save_50 \<and>
   \<not> ordered_desc (spec_score reference_ops ''50%'') [panel_500w, save_50] \<and>
   search reference_ops (Connected [lamp, hose]) ''solar'' False (Inr [lamp, hose]) \<and>
   score reference_ops ''solar'' lamp = score reference_ops ''solar'' hose \<and>
   spec_score reference_ops ''solar'' lamp < spec_score reference_ops ''solar'' hose \<and>
   \<not> ordered_desc (spec_score reference_ops ''solar'') [lamp, hose]"
proof -
  have first: "search reference_ops (Connected [save_50, panel_500w]) ''50%'' False
     (Inr [panel_500w, save_50])"
  proof (rule search_resultI [where matched = "[save_50, panel_500w]"])
    show "nul \<notin> set ''50%''" by (simp add: nul_def)
    show "filter (where_clause reference_ops ''50%'' False) [save_50, panel_500w] =
        [save_50, panel_500w]"
      by code_simp
    show "mset [panel_500w, save_50] = mset [save_50, panel_500w]" by simp
    show "ordered_desc (score reference_ops ''50%'') [panel_500w, save_50]" by code_simp
  qed
  have second: "search reference_ops (Connected [lamp, hose]) ''solar'' False (Inr [lamp, hose])"
  proof (rule search_resultI [where matched = "[lamp, hose]"])
    show "nul \<notin> set ''solar''" by (simp add: nul_def)
    show "filter (where_clause reference_ops ''solar'' False) [lamp, hose] = [lamp, hose]"
      by code_simp
    show "mset [lamp, hose] = mset [lamp, hose]" by simp
    show "ordered_desc (score reference_ops ''solar'') [lamp, hose]" by code_simp
  qed
  have facts: "spec_score reference_ops ''50%'' panel_500w < spec_score reference_ops ''50%'' save_50"
    "\<not> ordered_desc (spec_score reference_ops ''50%'') [panel_500w, save_50]"
    "score reference_ops ''solar'' lamp = score reference_ops ''solar'' hose"
    "spec_score reference_ops ''solar'' lamp < spec_score reference_ops ''solar'' hose"
    "\<not> ordered_desc (spec_score reference_ops ''solar'') [lamp, hose]"
    by code_simp+
  from first second facts show ?thesis by simp
qed

text \<open>
  C1, amended: the results are in descending order of the sum of 100 if the lowercased
  name equals the lowercased query, 50 if the lowercased name matches the lowercased
  pattern \<open>query%\<close>, 25 if it matches the lowercased pattern \<open>%query%\<close>, ten times the
  full-text rank over the document of name (weight A) and description (weight B), thirty
  times the trigram similarity of lowercased name and lowercased query, and twenty times
  the word similarity of lowercased query and lowercased name. For a query without
  \<open>%\<close>, \<open>_\<close> and backslash the two patterns test that the name starts with the query and
  that it contains the query.
\<close>

theorem search_ordered_by_score:
  assumes "search ops store query includeInactive (Inr rs)"
  shows "ordered_desc (score ops query) rs \<and>
         score ops query p =
           (if lower (name p) = lower query then 100 else 0) +
           (if like_match (lower (name p)) (lower (query @ ''%'')) then 50 else 0) +
           (if like_match (lower (name p)) (lower (''%'' @ query @ ''%'')) then 25 else 0) +
           ts_rank ops
             (tsconcat ops
                (setweight ops (to_tsvector ops (name p)) A)
                (setweight ops (to_tsvector ops (coalesce (description p) '''')) B))
             (plainto_tsquery ops query) * 10 +
           similarity ops (lower (name p)) (lower query) * 30 +
           word_similarity ops (lower query) (lower (name p)) * 20 \<and>
         (like_literal query \<longrightarrow>
            prefix_bonus query p = (if prefix (lower query) (lower (name p)) then 50 else 0) \<and>
            contains_bonus query p = (if sublist (lower query) (lower (name p)) then 25 else 0))"
proof -
  from assms have ordered: "ordered_desc (score ops query) rs"
    by (auto simp: search_Inr order_by_desc_def)
  have formula: "score ops query p =
      (if lower (name p) = lower query then 100 else 0) +
      (if like_match (lower (name p)) (lower (query @ ''%'')) then 50 else 0) +
      (if like_match (lower (name p)) (lower (''%'' @ query @ ''%'')) then 25 else 0) +
      ts_rank ops
        (tsconcat ops
           (setweight ops (to_tsvector ops (name p)) A)
           (setweight ops (to_tsvector ops (coalesce (description p) '''')) B))
        (plainto_tsquery ops query) * 10 +
      similarity ops (lower (name p)) (lower query) * 30 +
      word_similarity ops (lower query) (lower (name p)) * 20"
    by (simp add: score_def exact_bonus_def prefix_bonus_def contains_bonus_def rank_term_def
          rank_document_def trigram_term_def word_term_def searchPattern_def)
  have literal: "prefix_bonus query p = (if prefix (lower query) (lower (name p)) then 50 else 0) \<and>
      contains_bonus query p = (if sublist (lower query) (lower (name p)) then 25 else 0)"
    if "like_literal query"
    using that by (simp add: prefix_bonus_def contains_bonus_def like_pattern_of_literal)
  from ordered formula literal show ?thesis by blast
qed

text \<open>
  Witness for C1 (amended): the query \<open>solar\<close> on a store of four rows, all included; the
  scores are 235, 235 and 123.
\<close>

theorem search_ordered_by_score_witness:
  "search reference_ops (Connected [solar_kit, solar, wind, old_solar]) ''solar'' True
     (Inr [solar, old_solar, solar_kit]) \<and>
   like_literal ''solar'' \<and>
   ordered_desc (score reference_ops ''solar'') [solar, old_solar, solar_kit] \<and>
   score reference_ops ''solar'' solar = 235 \<and>
   score reference_ops ''solar'' old_solar = 235 \<and>
   score reference_ops ''solar'' solar_kit = 123"
proof -
  have l: "like_literal ''solar''"
    by code_simp
  from search_ordered_by_score [OF example_search_all] l example_scores example_search_all
  show ?thesis by blast
qed

end
